theory Spec2Isabelle
  imports Main "HOL-Library.AList"
begin

section \<open>Python values and exceptions\<close>

text \<open>
  The exceptions the modelled part of \<^verbatim>\<open>boggle.py\<close> can raise: the module's own
  \<^verbatim>\<open>InitError\<close>, and the built-in ones raised by list indexing, \<^verbatim>\<open>list.pop\<close>,
  \<^verbatim>\<open>range\<close> with a zero step, attribute lookup and a call stack that is full.
\<close>

datatype error = InitError | IndexError | ValueError | AttributeError | RecursionError

text \<open>
  The dynamically typed values that matter: the \<^verbatim>\<open>size\<close> keyword argument may be any
  object, and the search returns \<^verbatim>\<open>True\<close>, \<^verbatim>\<open>False\<close> or (by falling off the end of
  a function) \<^verbatim>\<open>None\<close>.
\<close>

datatype pyval = PyInt int | PyBool bool | PyStr string | PyNone

text \<open>\<^verbatim>\<open>isinstance(v, int)\<close>: \<^verbatim>\<open>bool\<close> is a subclass of \<^verbatim>\<open>int\<close>.\<close>

fun isinstance_int :: "pyval \<Rightarrow> bool" where
  "isinstance_int (PyInt n) = True"
| "isinstance_int (PyBool b) = True"
| "isinstance_int v = False"

text \<open>The integer an \<^verbatim>\<open>int\<close> instance denotes in arithmetic (\<^verbatim>\<open>True\<close> is 1).\<close>

fun int_of :: "pyval \<Rightarrow> int" where
  "int_of (PyInt n) = n"
| "int_of (PyBool b) = (if b then 1 else 0)"
| "int_of v = 0"

text \<open>Truth value of an object in \<^verbatim>\<open>if status:\<close>.\<close>

fun truthy :: "pyval \<Rightarrow> bool" where
  "truthy (PyBool b) = b"
| "truthy (PyInt n) = (n \<noteq> 0)"
| "truthy (PyStr s) = (s \<noteq> [])"
| "truthy PyNone = False"

type_synonym position = "int \<times> int"

text \<open>\<^verbatim>\<open>xs[i]\<close>: a negative index counts from the end, anything out of range raises.\<close>

definition py_index :: "'a list \<Rightarrow> int \<Rightarrow> error + 'a" where
  "py_index xs i =
     (let n = int (length xs); k = (if i < 0 then n + i else i)
      in if 0 \<le> k \<and> k < n then Inr (xs ! nat k) else Inl IndexError)"

text \<open>A slice bound, clamped the way \<^verbatim>\<open>xs[a:b]\<close> clamps it.\<close>

definition slice_bound :: "nat \<Rightarrow> int \<Rightarrow> nat" where
  "slice_bound n i = (if i < 0 then nat (max 0 (int n + i)) else min n (nat i))"

definition py_slice :: "'a list \<Rightarrow> int \<Rightarrow> int \<Rightarrow> 'a list" where
  "py_slice xs a b =
     (let lo = slice_bound (length xs) a; hi = slice_bound (length xs) b
      in take (hi - lo) (drop lo xs))"

text \<open>\<^verbatim>\<open>range(start, stop, step)\<close> as the list of its elements.\<close>

definition py_range :: "int \<Rightarrow> int \<Rightarrow> int \<Rightarrow> error + int list" where
  "py_range start stop step =
     (if step = 0 then Inl ValueError
      else if 0 < step
        then Inr (map (\<lambda>k. start + int k * step) [0..<nat ((stop - start + step - 1) div step)])
        else Inr (map (\<lambda>k. start + int k * step) [0..<nat ((start - stop - step - 1) div (- step))]))"

text \<open>
  \<^verbatim>\<open>str.isalpha()\<close>: at least one character, and every character alphabetic. Which
  characters are alphabetic is Unicode's business, so the per-character test is a
  parameter.
\<close>

definition isalpha :: "('c \<Rightarrow> bool) \<Rightarrow> 'c list \<Rightarrow> bool" where
  "isalpha alpha s = (s \<noteq> [] \<and> list_all alpha s)"

section \<open>BoggleBoard\<close>

text \<open>
  The attributes of a \<^verbatim>\<open>BoggleBoard\<close> object (\<^verbatim>\<open>cname\<close> and \<^verbatim>\<open>debug\<close> only feed
  messages and are left out). \<^verbatim>\<open>letters\<close> is \<^verbatim>\<open>''.join(letter_list)\<close>, which for
  one-character strings is the same sequence of characters.
\<close>

record 'c BoggleBoard =
  size_b :: int
  letter_list :: "'c list"
  board :: "'c list list"
  letters :: "'c list"

text \<open>
  \<^verbatim>\<open>build_letter_list\<close>: the supplied letters when they are truthy, otherwise
  \<^verbatim>\<open>size**2\<close> random draws; \<open>draw k\<close> is the letter the \<open>k\<close>-th call of
  \<^verbatim>\<open>random.choice\<close> returns.
\<close>

definition build_letter_list :: "(nat \<Rightarrow> 'c) \<Rightarrow> int \<Rightarrow> 'c list option \<Rightarrow> 'c list" where
  "build_letter_list draw sz letters_arg =
     (case letters_arg of
        Some l \<Rightarrow> if l \<noteq> [] then l else map draw [0..<nat (sz ^ 2)]
      | None \<Rightarrow> map draw [0..<nat (sz ^ 2)])"

text \<open>\<^verbatim>\<open>build_board\<close>: one slice of the letter list per element of the range.\<close>

definition build_board :: "int \<Rightarrow> 'c list \<Rightarrow> error + 'c list list" where
  "build_board sz ll =
     (case py_range 0 (int (length ll)) sz of
        Inl e \<Rightarrow> Inl e
      | Inr starts \<Rightarrow> Inr (map (\<lambda>i. py_slice ll i (i + sz)) starts))"

text \<open>
  \<^verbatim>\<open>BoggleBoard.__init__(**kwargs)\<close>: \<open>size_arg\<close> and \<open>letters_arg\<close> are \<open>None\<close> when
  the keyword is absent. The checks run in the source's order.
\<close>

definition BoggleBoard_init ::
  "('c \<Rightarrow> bool) \<Rightarrow> (nat \<Rightarrow> 'c) \<Rightarrow> pyval option \<Rightarrow> 'c list option \<Rightarrow> error + 'c BoggleBoard" where
  "BoggleBoard_init alpha draw size_arg letters_arg =
     (case (case size_arg of
              None \<Rightarrow> Inr 5
            | Some v \<Rightarrow> if \<not> isinstance_int v then Inl InitError else Inr (int_of v)) of
        Inl e \<Rightarrow> Inl e
      | Inr sz \<Rightarrow>
          (case (case letters_arg of
                   None \<Rightarrow> Inr ()
                 | Some l \<Rightarrow>
                     if \<not> isalpha alpha l then Inl InitError
                     else if int (length l) \<noteq> sz ^ 2 then Inl InitError
                     else Inr ()) of
             Inl e \<Rightarrow> Inl e
           | Inr u \<Rightarrow>
               (let ll = build_letter_list draw sz letters_arg in
                case build_board sz ll of
                  Inl e \<Rightarrow> Inl e
                | Inr bd \<Rightarrow> Inr \<lparr>size_b = sz, letter_list = ll, board = bd, letters = ll\<rparr>)))"

text \<open>
  \<^verbatim>\<open>build_neighbor_map\<close>: the dict literal, as the list of its items in insertion
  order.
\<close>

definition build_neighbor_map ::
  "'c BoggleBoard \<Rightarrow> int \<Rightarrow> int \<Rightarrow> (string \<times> position option) list" where
  "build_neighbor_map b i_row j_col =
     (let idx_edge = size_b b - 1 in
      [(''left'', if j_col > 0 then Some (i_row, j_col - 1) else None),
       (''right'', if j_col < idx_edge then Some (i_row, j_col + 1) else None),
       (''up'', if i_row > 0 then Some (i_row - 1, j_col) else None),
       (''down'', if i_row < idx_edge then Some (i_row + 1, j_col) else None),
       (''d-up-left'', if i_row > 0 \<and> j_col > 0 then Some (i_row - 1, j_col - 1) else None),
       (''d-up-right'',
          if i_row > 0 \<and> j_col < idx_edge then Some (i_row - 1, j_col + 1) else None),
       (''d-down-left'',
          if i_row < idx_edge \<and> j_col > 0 then Some (i_row + 1, j_col - 1) else None),
       (''d-down-right'',
          if i_row < idx_edge \<and> j_col < idx_edge then Some (i_row + 1, j_col + 1) else None)])"

text \<open>\<^verbatim>\<open>get_letter_at_position\<close>: \<^verbatim>\<open>self.board[i_row][j_col]\<close>.\<close>

definition get_letter_at_position :: "'c BoggleBoard \<Rightarrow> int \<Rightarrow> int \<Rightarrow> error + 'c" where
  "get_letter_at_position b i_row j_col =
     (case py_index (board b) i_row of
        Inl e \<Rightarrow> Inl e
      | Inr row \<Rightarrow> py_index row j_col)"

text \<open>
  The loop of \<^verbatim>\<open>nearest_neighbor_data\<close> over the neighbour map's values. The dict
  \<^verbatim>\<open>nn_data\<close> is an association list in insertion order; \<^verbatim>\<open>nn_data[t_pos] = ...\<close>
  overwrites in place when the key is there and appends otherwise, which is what
  \<^const>\<open>AList.update\<close> does. A tuple of two is truthy, \<^verbatim>\<open>None\<close> is not.
\<close>

fun nn_loop ::
  "'c BoggleBoard \<Rightarrow> position option list \<Rightarrow> (position \<times> 'c) list
     \<Rightarrow> error + (position \<times> 'c) list" where
  "nn_loop b [] nn_data = Inr nn_data"
| "nn_loop b (None # rest) nn_data = nn_loop b rest nn_data"
| "nn_loop b (Some t_pos # rest) nn_data =
     (case get_letter_at_position b (fst t_pos) (snd t_pos) of
        Inl e \<Rightarrow> Inl e
      | Inr l \<Rightarrow> nn_loop b rest (AList.update t_pos l nn_data))"

definition nearest_neighbor_data ::
  "'c BoggleBoard \<Rightarrow> int \<Rightarrow> int \<Rightarrow> error + (position \<times> 'c) list" where
  "nearest_neighbor_data b i_row j_col =
     nn_loop b (map snd (build_neighbor_map b i_row j_col)) []"

text \<open>
  \<^verbatim>\<open>positions_for_letter\<close>: the two nested loops over \<^verbatim>\<open>enumerate\<close>, appending to
  \<^verbatim>\<open>position_tuples\<close>.
\<close>

fun pfl_row :: "'c \<Rightarrow> nat \<Rightarrow> (nat \<times> 'c) list \<Rightarrow> position list \<Rightarrow> position list" where
  "pfl_row letter i [] position_tuples = position_tuples"
| "pfl_row letter i ((j, ch) # rest) position_tuples =
     pfl_row letter i rest
       (if ch = letter then position_tuples @ [(int i, int j)] else position_tuples)"

fun pfl_rows :: "'c \<Rightarrow> (nat \<times> 'c list) list \<Rightarrow> position list \<Rightarrow> position list" where
  "pfl_rows letter [] position_tuples = position_tuples"
| "pfl_rows letter ((i, row) # rest) position_tuples =
     pfl_rows letter rest (pfl_row letter i (enumerate 0 row) position_tuples)"

definition positions_for_letter :: "'c BoggleBoard \<Rightarrow> 'c \<Rightarrow> position list" where
  "positions_for_letter b letter = pfl_rows letter (enumerate 0 (board b)) []"

text \<open>
  Attribute lookup of \<^verbatim>\<open>values\<close>: a dict has the method, a bound method object has
  no such attribute. These are the two kinds of object the board's code applies
  \<^verbatim>\<open>.values()\<close> to.
\<close>

datatype 'c pyobj = DictObj "(position \<times> 'c) list" | BoundMethod string

definition values_of :: "'c pyobj \<Rightarrow> error + 'c list" where
  "values_of obj =
     (case obj of
        DictObj d \<Rightarrow> Inr (map snd d)
      | BoundMethod name \<Rightarrow> Inl AttributeError)"

text \<open>
  \<^verbatim>\<open>nearest_neighbor_letters\<close>: \<^verbatim>\<open>self.nearest_neighbor_data.values()\<close>, where
  \<^verbatim>\<open>self.nearest_neighbor_data\<close> is the bound method, not a call of it.
\<close>

definition nearest_neighbor_letters :: "'c BoggleBoard \<Rightarrow> int \<Rightarrow> int \<Rightarrow> error + 'c list" where
  "nearest_neighbor_letters b i_row j_col =
     values_of (BoundMethod ''nearest_neighbor_data'' :: 'c pyobj)"

section \<open>BoggleGame: the path search\<close>

text \<open>
  What a call of \<^verbatim>\<open>check_word_on_board\<close> can read and write: the game's board
  object and the list object \<^verbatim>\<open>letter_list\<close> that it creates and hands, by
  reference, to every call of \<^verbatim>\<open>recursive_string_search\<close>. Each operation returns
  the state it leaves behind, also when it raises. In this first model the depth of
  Python's call stack is unbounded; the model with the interpreter's recursion limit
  follows it. \<^verbatim>\<open>dprint\<close> output is not modelled.
\<close>

record 'c search_state =
  game_board :: "'c BoggleBoard"
  word_letters :: "'c list"

text \<open>\<^verbatim>\<open>letter_list.pop(0)\<close>.\<close>

definition pop0 :: "'c search_state \<Rightarrow> (error + 'c) \<times> 'c search_state" where
  "pop0 s =
     (case word_letters s of
        [] \<Rightarrow> (Inl IndexError, s)
      | c # cs \<Rightarrow> (Inr c, s\<lparr>word_letters := cs\<rparr>))"

text \<open>
  \<^verbatim>\<open>recursive_string_search\<close>, and its \<^verbatim>\<open>for\<close> loop over \<^verbatim>\<open>nn_data.items()\<close> as
  \<open>search_neighbors\<close>. A loop that runs out of items falls off the end of the function,
  which returns \<^verbatim>\<open>None\<close>.
\<close>

function recursive_string_search ::
    "'c search_state \<Rightarrow> int \<Rightarrow> int \<Rightarrow> (error + pyval) \<times> 'c search_state"
  and search_neighbors ::
    "'c search_state \<Rightarrow> (position \<times> 'c) list \<Rightarrow> 'c \<Rightarrow> (error + pyval) \<times> 'c search_state"
where
  "recursive_string_search s i_row j_col =
     (case pop0 s of
        (Inl e, s1) \<Rightarrow> (Inl e, s1)
      | (Inr current_letter, s1) \<Rightarrow>
          (case py_index (word_letters s1) 0 of
             Inl e \<Rightarrow> (Inl e, s1)
           | Inr next_letter \<Rightarrow>
               (case nearest_neighbor_data (game_board s1) i_row j_col of
                  Inl e \<Rightarrow> (Inl e, s1)
                | Inr nn_data \<Rightarrow>
                    if next_letter \<notin> set (map snd nn_data) then (Inr (PyBool False), s1)
                    else search_neighbors s1 nn_data next_letter)))"
| "search_neighbors s [] next_letter = (Inr PyNone, s)"
| "search_neighbors s ((t_pos, letter) # items) next_letter =
     (if letter = next_letter
      then (if length (word_letters s) = 1 then (Inr (PyBool True), s)
            else recursive_string_search s (fst t_pos) (snd t_pos))
      else search_neighbors s items next_letter)"
  by pat_completeness auto
termination
proof (relation "measures
    [\<lambda>x. case x of Inl (s, i, j) \<Rightarrow> 2 * length (word_letters s)
                  | Inr (s, items, n) \<Rightarrow> 2 * length (word_letters s) + 1,
     \<lambda>x. case x of Inl (s, i, j) \<Rightarrow> 0 | Inr (s, items, n) \<Rightarrow> length items]")
qed (auto simp: pop0_def split: list.splits)

text \<open>
  The \<^verbatim>\<open>for\<close> loop of \<^verbatim>\<open>check_word_on_board\<close> over the start positions. The
  message for \<^verbatim>\<open>dprint\<close> is built on every iteration, whatever the debug level, and
  reads \<^verbatim>\<open>letter_list[0]\<close>.
\<close>

fun start_loop ::
  "'c search_state \<Rightarrow> position list \<Rightarrow> pyval \<Rightarrow> (error + pyval) \<times> 'c search_state" where
  "start_loop s [] status = (Inr status, s)"
| "start_loop s ((i_row, j_col) # rest) status =
     (case py_index (word_letters s) 0 of
        Inl e \<Rightarrow> (Inl e, s)
      | Inr first_letter \<Rightarrow>
          (case recursive_string_search s i_row j_col of
             (Inl e, s1) \<Rightarrow> (Inl e, s1)
           | (Inr status1, s1) \<Rightarrow>
               if truthy status1 then (Inr status1, s1) else start_loop s1 rest status1))"

text \<open>
  \<^verbatim>\<open>check_word_on_board\<close>, from the state in which \<^verbatim>\<open>letter_list = list(word)\<close> has
  just been bound.
\<close>

definition check_word_on_board_from ::
  "'c search_state \<Rightarrow> (error + pyval) \<times> 'c search_state" where
  "check_word_on_board_from s =
     (case py_index (word_letters s) 0 of
        Inl e \<Rightarrow> (Inl e, s)
      | Inr first_letter \<Rightarrow>
          (let start_positions = positions_for_letter (game_board s) first_letter in
           if length start_positions \<noteq> 0 then start_loop s start_positions (PyBool False)
           else (Inr (PyBool False), s)))"

text \<open>
  A call \<^verbatim>\<open>game.check_word_on_board(word)\<close> on a game whose board is \<open>b\<close>: what it
  returns or raises, and the board object it leaves.
\<close>

definition check_word_on_board_call ::
  "'c BoggleBoard \<Rightarrow> 'c list \<Rightarrow> (error + pyval) \<times> 'c BoggleBoard" where
  "check_word_on_board_call b word =
     (case check_word_on_board_from \<lparr>game_board = b, word_letters = word\<rparr> of
        (r, s) \<Rightarrow> (r, game_board s))"

definition check_word_on_board :: "'c BoggleBoard \<Rightarrow> 'c list \<Rightarrow> error + pyval" where
  "check_word_on_board b word = fst (check_word_on_board_call b word)"

subsection \<open>The search under the interpreter's recursion limit\<close>





section \<open>Notions used to state the properties\<close>

text \<open>
  A board as a successful construction with a positive size leaves it: \<open>size\<close> rows of
  \<open>size\<close> letters each.
\<close>

definition wf_board :: "'c BoggleBoard \<Rightarrow> bool" where
  "wf_board b =
     (1 \<le> size_b b \<and> int (length (board b)) = size_b b \<and>
      list_all (\<lambda>row. int (length row) = size_b b) (board b))"

text \<open>A position of the grid: row and column both in \<open>0 .. size - 1\<close>.\<close>

definition in_bounds :: "'c BoggleBoard \<Rightarrow> position \<Rightarrow> bool" where
  "in_bounds b p = (0 \<le> fst p \<and> fst p < size_b b \<and> 0 \<le> snd p \<and> snd p < size_b b)"

text \<open>
  The eight compass directions from a cell, in the order left, right, up, down, up-left,
  up-right, down-left, down-right.
\<close>

definition compass :: "int \<Rightarrow> int \<Rightarrow> position list" where
  "compass i j =
     [(i, j - 1), (i, j + 1), (i - 1, j), (i + 1, j),
      (i - 1, j - 1), (i - 1, j + 1), (i + 1, j - 1), (i + 1, j + 1)]"

text \<open>The letter in a cell of the grid.\<close>

definition cell :: "'c BoggleBoard \<Rightarrow> position \<Rightarrow> 'c" where
  "cell b p = board b ! nat (fst p) ! nat (snd p)"

text \<open>The ASCII letters, all of which \<^verbatim>\<open>str.isalpha\<close> accepts.\<close>

definition ascii_letter :: "char \<Rightarrow> bool" where
  "ascii_letter c = (c \<in> set ''abcdefghijklmnopqrstuvwxyzABCDEFGHIJKLMNOPQRSTUVWXYZ'')"

text \<open>The 4 by 4 board of the specification's scenarios 1 to 3.\<close>

definition scenario_board :: "char BoggleBoard" where
  "scenario_board =
     \<lparr>size_b = 4, letter_list = ''catsoxxxxxxxxxxx'',
      board = [''cats'', ''oxxx'', ''xxxx'', ''xxxx''], letters = ''catsoxxxxxxxxxxx''\<rparr>"

text \<open>A 3 by 3 board used for the neighbour counts: one corner, edge and interior cell.\<close>

definition alphabet_board :: "char BoggleBoard" where
  "alphabet_board =
     \<lparr>size_b = 3, letter_list = ''abcdefghi'',
      board = [''abc'', ''def'', ''ghi''], letters = ''abcdefghi''\<rparr>"

text \<open>
  Row-major order on positions: an earlier row, or the same row and an earlier column.
\<close>

definition row_major_before :: "position \<Rightarrow> position \<Rightarrow> bool" where
  "row_major_before p q = (fst p < fst q \<or> fst p = fst q \<and> snd p < snd q)"

text \<open>
  \<open>n\<close> calls of \<^verbatim>\<open>check_word_on_board\<close> with the same word, one after the other on
  the same game: the results in order, and the board the last call leaves.
\<close>

fun repeat_calls ::
  "nat \<Rightarrow> 'c BoggleBoard \<Rightarrow> 'c list \<Rightarrow> (error + pyval) list \<times> 'c BoggleBoard" where
  "repeat_calls 0 b word = ([], b)"
| "repeat_calls (Suc n) b word =
     (case check_word_on_board_call b word of
        (r, b1) \<Rightarrow> (case repeat_calls n b1 word of (rs, b2) \<Rightarrow> (r # rs, b2)))"

text \<open>
  The neighbour the loop of \<^verbatim>\<open>recursive_string_search\<close> stops at: the key of the first
  item of \<^verbatim>\<open>nn_data\<close> whose letter is the one looked for.
\<close>

definition first_match :: "'c BoggleBoard \<Rightarrow> int \<Rightarrow> int \<Rightarrow> 'c \<Rightarrow> position option" where
  "first_match b i_row j_col next_letter =
     (case nearest_neighbor_data b i_row j_col of
        Inl e \<Rightarrow> None
      | Inr nn_data \<Rightarrow> map_option fst (find (\<lambda>it. snd it = next_letter) nn_data))"

text \<open>The keys of the dict literal of \<^verbatim>\<open>build_neighbor_map\<close>, in its order.\<close>

definition direction_labels :: "string list" where
  "direction_labels =
     [''left'', ''right'', ''up'', ''down'',
      ''d-up-left'', ''d-up-right'', ''d-down-left'', ''d-down-right'']"

text \<open>
  A board on which the first \<open>b\<close> next to the \<open>a\<close>, the one to its left, leads nowhere,
  while the \<open>b\<close> to its right touches the \<open>c\<close>.
\<close>

definition dead_end_board :: "char BoggleBoard" where
  "dead_end_board =
     \<lparr>size_b = 3, letter_list = ''xxcbabxxx'',
      board = [''xxc'', ''bab'', ''xxx''], letters = ''xxcbabxxx''\<rparr>"

text \<open>
  A board with two cells holding \<open>a\<close>: the one at (0, 0) touches no \<open>b\<close>, the one at
  (2, 1) does.
\<close>

definition two_a_board :: "char BoggleBoard" where
  "two_a_board =
     \<lparr>size_b = 3, letter_list = ''axxxxxxab'',
      board = [''axx'', ''xxx'', ''xab''], letters = ''axxxxxxab''\<rparr>"

text \<open>The same with a \<open>c\<close> in place of the \<open>b\<close>: a board without any \<open>b\<close>.\<close>

definition no_b_board :: "char BoggleBoard" where
  "no_b_board =
     \<lparr>size_b = 3, letter_list = ''axxxxxxac'',
      board = [''axx'', ''xxx'', ''xac''], letters = ''axxxxxxac''\<rparr>"

text \<open>
  The size a construction asks for: 5 when the keyword is absent, the integer when the
  argument is an \<^verbatim>\<open>int\<close> instance, none when it is anything else.
\<close>

fun requested_size :: "pyval option \<Rightarrow> int option" where
  "requested_size None = Some 5"
| "requested_size (Some v) = (if isinstance_int v then Some (int_of v) else None)"

text \<open>A 2 by 2 board with a single \<open>a\<close>, next to a \<open>b\<close>.\<close>

definition oscillation_board :: "char BoggleBoard" where
  "oscillation_board =
     \<lparr>size_b = 2, letter_list = ''abxx'', board = [''ab'', ''xx''], letters = ''abxx''\<rparr>"

text \<open>
  A trace in the sense of the specification's glossary, written after its words and not
  taken from the code: a sequence of positions of the grid, one per letter of the word,
  each holding its letter, each next one among the neighbours
  (\<^verbatim>\<open>nearest_neighbor_data\<close>) of the one before.
\<close>

definition adjacent :: "'c BoggleBoard \<Rightarrow> position \<Rightarrow> position \<Rightarrow> bool" where
  "adjacent b p q =
     (case nearest_neighbor_data b (fst p) (snd p) of
        Inl e \<Rightarrow> False
      | Inr nn_data \<Rightarrow> q \<in> set (map fst nn_data))"

fun spec_trace :: "'c BoggleBoard \<Rightarrow> position list \<Rightarrow> 'c list \<Rightarrow> bool" where
  "spec_trace b [] [] = True"
| "spec_trace b [p] [c] =
     (in_bounds b p \<and> get_letter_at_position b (fst p) (snd p) = Inr c)"
| "spec_trace b (p # q # ps) (c # d # w) =
     (in_bounds b p \<and> get_letter_at_position b (fst p) (snd p) = Inr c \<and>
      adjacent b p q \<and> spec_trace b (q # ps) (d # w))"
| "spec_trace b ps w = False"

section \<open>Indexing and the neighbours of a cell\<close>

lemma py_index_in_range:
  "0 \<le> i \<Longrightarrow> i < int (length xs) \<Longrightarrow> py_index xs i = Inr (xs ! nat i)"
  by (simp add: py_index_def Let_def)

lemma wf_board_row:
  "wf_board b \<Longrightarrow> k < length (board b) \<Longrightarrow> int (length (board b ! k)) = size_b b"
  by (simp add: wf_board_def list_all_length)

lemma get_letter_in_bounds:
  assumes "wf_board b" "in_bounds b p"
  shows "get_letter_at_position b (fst p) (snd p) = Inr (cell b p)"
proof -
  from assms have len: "int (length (board b)) = size_b b"
    by (simp add: wf_board_def)
  from assms have i: "0 \<le> fst p" "fst p < int (length (board b))"
    by (simp_all add: in_bounds_def len)
  then have k: "nat (fst p) < length (board b)" by linarith
  have row: "int (length (board b ! nat (fst p))) = size_b b"
    using wf_board_row [OF assms(1) k] .
  from assms have j: "0 \<le> snd p" "snd p < int (length (board b ! nat (fst p)))"
    by (simp_all add: in_bounds_def row)
  show ?thesis
    by (simp add: get_letter_at_position_def py_index_in_range [OF i]
        py_index_in_range [OF j] cell_def)
qed

text \<open>Storing under a key the dict does not have yet appends the item.\<close>

lemma update_fresh: "k \<notin> fst ` set al \<Longrightarrow> AList.update k v al = al @ [(k, v)]"
  by (induction al) auto

lemma nn_loop_filter:
  assumes "wf_board b"
  shows "distinct ps \<Longrightarrow> set ps \<inter> fst ` set nn = {} \<Longrightarrow>
     nn_loop b (map (\<lambda>p. if in_bounds b p then Some p else None) ps) nn =
       Inr (nn @ map (\<lambda>p. (p, cell b p)) (filter (in_bounds b) ps))"
proof (induction ps arbitrary: nn)
  case Nil
  then show ?case by simp
next
  case (Cons p ps)
  show ?case
  proof (cases "in_bounds b p")
    case False
    with Cons show ?thesis by simp
  next
    case True
    from Cons.prems have fresh: "p \<notin> fst ` set nn" by auto
    have disj: "set ps \<inter> fst ` set (nn @ [(p, cell b p)]) = {}"
      using Cons.prems by auto
    from Cons.prems have d: "distinct ps" by simp
    show ?thesis
      using True Cons.IH [OF d disj]
      by (simp add: get_letter_in_bounds [OF assms True] update_fresh [OF fresh])
  qed
qed

text \<open>
  For a cell of the grid, each guard of the dict literal in \<^verbatim>\<open>build_neighbor_map\<close>
  says exactly that the neighbour in that direction is on the grid.
\<close>

lemma neighbor_map_values:
  assumes "in_bounds b (i, j)"
  shows "map snd (build_neighbor_map b i j) =
     map (\<lambda>p. if in_bounds b p then Some p else None) (compass i j)"
  using assms by (simp add: build_neighbor_map_def compass_def in_bounds_def Let_def)

lemma distinct_compass: "distinct (compass i j)"
  by (simp add: compass_def)

lemma nearest_neighbor_data_eq:
  assumes "wf_board b" "in_bounds b (i, j)"
  shows "nearest_neighbor_data b i j =
     Inr (map (\<lambda>p. (p, cell b p)) (filter (in_bounds b) (compass i j)))"
  unfolding nearest_neighbor_data_def neighbor_map_values [OF assms(2)]
  using nn_loop_filter [OF assms(1) distinct_compass, where nn = "[]"] by simp

lemma neighbor_count:
  assumes "2 \<le> size_b b" "in_bounds b (i, j)"
  shows "length (filter (in_bounds b) (compass i j)) =
     (if (i = 0 \<or> i = size_b b - 1) \<and> (j = 0 \<or> j = size_b b - 1) then 3
      else if i = 0 \<or> i = size_b b - 1 \<or> j = 0 \<or> j = size_b b - 1 then 5
      else 8)"
  using assms by (auto simp: compass_def in_bounds_def)

lemma wf_alphabet_board: "wf_board alphabet_board"
  by (simp add: wf_board_def alphabet_board_def)

text \<open>
  C4. On a board of size at least 2, \<^verbatim>\<open>nearest_neighbor_data\<close> returns, for every cell
  of the grid, a dict with pairwise different positions as keys: 3 of them for a corner
  cell, 5 for a cell on an edge that is not a corner, 8 for an interior cell.
\<close>

theorem nearest_neighbor_data_count:
  assumes "wf_board b" and "2 \<le> size_b b" and "in_bounds b (i, j)"
  shows "\<exists>nn. nearest_neighbor_data b i j = Inr nn \<and> distinct (map fst nn) \<and>
     card (fst ` set nn) = length nn \<and>
     length nn =
       (if (i = 0 \<or> i = size_b b - 1) \<and> (j = 0 \<or> j = size_b b - 1) then 3
        else if i = 0 \<or> i = size_b b - 1 \<or> j = 0 \<or> j = size_b b - 1 then 5
        else 8)"
proof -
  let ?nn = "map (\<lambda>p. (p, cell b p)) (filter (in_bounds b) (compass i j))"
  have keys: "map fst ?nn = filter (in_bounds b) (compass i j)"
    by (simp add: comp_def)
  have d: "distinct (map fst ?nn)"
    unfolding keys using distinct_compass by (rule distinct_filter)
  have "card (set (map fst ?nn)) = length (map fst ?nn)"
    by (rule distinct_card [OF d])
  then have c: "card (fst ` set ?nn) = length ?nn"
    by (simp only: set_map length_map)
  have n: "length ?nn =
       (if (i = 0 \<or> i = size_b b - 1) \<and> (j = 0 \<or> j = size_b b - 1) then 3
        else if i = 0 \<or> i = size_b b - 1 \<or> j = 0 \<or> j = size_b b - 1 then 5
        else 8)"
    using neighbor_count [OF assms(2,3)] by simp
  show ?thesis
    using nearest_neighbor_data_eq [OF assms(1,3)] d c n by blast
qed

theorem nearest_neighbor_data_count_witness:
  "wf_board alphabet_board \<and> 2 \<le> size_b alphabet_board \<and>
   in_bounds alphabet_board (0, 0) \<and>
   (\<exists>nn. nearest_neighbor_data alphabet_board 0 0 = Inr nn \<and> length nn = 3) \<and>
   in_bounds alphabet_board (0, 1) \<and>
   (\<exists>nn. nearest_neighbor_data alphabet_board 0 1 = Inr nn \<and> length nn = 5) \<and>
   in_bounds alphabet_board (1, 1) \<and>
   (\<exists>nn. nearest_neighbor_data alphabet_board 1 1 = Inr nn \<and> length nn = 8)"
proof -
  have s: "2 \<le> size_b alphabet_board" by (simp add: alphabet_board_def)
  have p0: "in_bounds alphabet_board (0, 0)" by (simp add: in_bounds_def alphabet_board_def)
  have p1: "in_bounds alphabet_board (0, 1)" by (simp add: in_bounds_def alphabet_board_def)
  have p2: "in_bounds alphabet_board (1, 1)" by (simp add: in_bounds_def alphabet_board_def)
  have n0: "\<exists>nn. nearest_neighbor_data alphabet_board 0 0 = Inr nn \<and> length nn = 3"
    using nearest_neighbor_data_count [OF wf_alphabet_board s p0]
    by (auto simp: alphabet_board_def)
  have n1: "\<exists>nn. nearest_neighbor_data alphabet_board 0 1 = Inr nn \<and> length nn = 5"
    using nearest_neighbor_data_count [OF wf_alphabet_board s p1]
    by (auto simp: alphabet_board_def)
  have n2: "\<exists>nn. nearest_neighbor_data alphabet_board 1 1 = Inr nn \<and> length nn = 8"
    using nearest_neighbor_data_count [OF wf_alphabet_board s p2]
    by (auto simp: alphabet_board_def)
  show ?thesis using wf_alphabet_board s p0 p1 p2 n0 n1 n2 by blast
qed

section \<open>Occurrences of a letter\<close>

lemma pfl_row_eq:
  "pfl_row letter i xs acc =
     acc @ map (\<lambda>jc. (int i, int (fst jc))) (filter (\<lambda>jc. snd jc = letter) xs)"
  by (induction xs arbitrary: acc) auto

lemma pfl_rows_eq:
  "pfl_rows letter xs acc =
     acc @ concat (map (\<lambda>ir. pfl_row letter (fst ir) (enumerate 0 (snd ir)) []) xs)"
proof (induction xs arbitrary: acc)
  case Nil
  show ?case by simp
next
  case (Cons ir xs)
  obtain i row where ir: "ir = (i, row)" by (cases ir)
  show ?case
    unfolding ir pfl_rows.simps Cons.IH
    by (simp add: pfl_row_eq [of letter i _ acc] pfl_row_eq [of letter i _ "[]"])
qed

lemma enumerate_nth: "enumerate 0 xs = map (\<lambda>k. (k, xs ! k)) [0..<length xs]"
proof -
  have "enumerate 0 (map ((!) xs) [0..<length xs]) = map (\<lambda>k. (k, xs ! k)) [0..<length xs]"
    by (rule enumerate_map_upt)
  then show ?thesis by (simp add: map_nth)
qed

lemma positions_for_letter_eq:
  "positions_for_letter b letter =
     concat (map (\<lambda>i. map (\<lambda>j. (int i, int j))
                          (filter (\<lambda>j. board b ! i ! j = letter) [0..<length (board b ! i)]))
                 [0..<length (board b)])"
  by (simp add: positions_for_letter_def pfl_rows_eq pfl_row_eq enumerate_nth
      filter_map comp_def)

lemma positions_for_letter_set:
  "set (positions_for_letter b letter) =
     {(int i, int j) | i j. i < length (board b) \<and> j < length (board b ! i) \<and>
        board b ! i ! j = letter}"
  unfolding positions_for_letter_eq by auto

lemma sorted_wrt_concat_upt:
  assumes "\<And>i. i < n \<Longrightarrow> sorted_wrt R (f i)"
    and "\<And>i k x y. i < k \<Longrightarrow> k < n \<Longrightarrow> x \<in> set (f i) \<Longrightarrow> y \<in> set (f k) \<Longrightarrow> R x y"
  shows "sorted_wrt R (concat (map f [0..<n]))"
  using assms
proof (induction n)
  case 0
  show ?case by simp
next
  case (Suc n)
  have "sorted_wrt R (concat (map f [0..<n]))"
    using Suc.IH Suc.prems by (metis less_Suc_eq)
  moreover have "sorted_wrt R (f n)" using Suc.prems(1) by simp
  moreover have "\<forall>x\<in>set (concat (map f [0..<n])). \<forall>y\<in>set (f n). R x y"
    using Suc.prems(2) by auto
  ultimately show ?case by (simp add: sorted_wrt_append)
qed

lemma positions_for_letter_sorted:
  "sorted_wrt row_major_before (positions_for_letter b letter)"
  unfolding positions_for_letter_eq
proof (rule sorted_wrt_concat_upt)
  fix i
  have "sorted_wrt (<) (filter (\<lambda>j. board b ! i ! j = letter) [0..<length (board b ! i)])"
    by (rule sorted_wrt_filter) simp
  then show "sorted_wrt row_major_before
     (map (\<lambda>j. (int i, int j)) (filter (\<lambda>j. board b ! i ! j = letter) [0..<length (board b ! i)]))"
    by (simp add: sorted_wrt_map row_major_before_def)
next
  fix i k :: nat and x y :: position
  assume "i < k"
    and "x \<in> set (map (\<lambda>j. (int i, int j)) (filter (\<lambda>j. board b ! i ! j = letter) [0..<length (board b ! i)]))"
    and "y \<in> set (map (\<lambda>j. (int k, int j)) (filter (\<lambda>j. board b ! k ! j = letter) [0..<length (board b ! k)]))"
  then show "row_major_before x y" by (auto simp: row_major_before_def)
qed

lemma positions_for_letter_empty:
  "(positions_for_letter b letter = []) = (letter \<notin> set (concat (board b)))"
proof
  assume e: "positions_for_letter b letter = []"
  show "letter \<notin> set (concat (board b))"
  proof
    assume "letter \<in> set (concat (board b))"
    then obtain row where r: "row \<in> set (board b)" and l: "letter \<in> set row" by auto
    from r obtain i where i: "i < length (board b)" "board b ! i = row"
      by (auto simp: in_set_conv_nth)
    from l obtain j where j: "j < length row" "row ! j = letter"
      by (auto simp: in_set_conv_nth)
    from i j have "(int i, int j) \<in> set (positions_for_letter b letter)"
      unfolding positions_for_letter_set by blast
    with e show False by simp
  qed
next
  assume n: "letter \<notin> set (concat (board b))"
  have "set (positions_for_letter b letter) = {}"
  proof (rule ccontr)
    assume "set (positions_for_letter b letter) \<noteq> {}"
    then obtain i j where "i < length (board b)" "j < length (board b ! i)"
      "board b ! i ! j = letter"
      unfolding positions_for_letter_set by blast
    then have "letter \<in> set (board b ! i)" "board b ! i \<in> set (board b)"
      by (auto simp: in_set_conv_nth)
    then have "letter \<in> set (concat (board b))" by auto
    with n show False by simp
  qed
  then show "positions_for_letter b letter = []" by simp
qed


section \<open>The path search\<close>

declare recursive_string_search.simps [simp del]

lemma search_neighbors_find:
  "search_neighbors s nn next_letter =
     (case find (\<lambda>it. snd it = next_letter) nn of
        None \<Rightarrow> (Inr PyNone, s)
      | Some it \<Rightarrow>
          if length (word_letters s) = 1 then (Inr (PyBool True), s)
          else recursive_string_search s (fst (fst it)) (snd (fst it)))"
  by (induction nn) auto

lemma find_None_values: "(find (\<lambda>it. snd it = x) nn = None) = (x \<notin> set (map snd nn))"
  by (induction nn) auto

lemma recursive_string_search_step:
  assumes "word_letters s = cur # next_letter # rest"
    and "nearest_neighbor_data (game_board s) i j = Inr nn"
  shows "recursive_string_search s i j =
     (case find (\<lambda>it. snd it = next_letter) nn of
        None \<Rightarrow> (Inr (PyBool False), s\<lparr>word_letters := next_letter # rest\<rparr>)
      | Some it \<Rightarrow>
          if rest = [] then (Inr (PyBool True), s\<lparr>word_letters := next_letter # rest\<rparr>)
          else recursive_string_search (s\<lparr>word_letters := next_letter # rest\<rparr>)
                 (fst (fst it)) (snd (fst it)))"
proof (cases "find (\<lambda>it. snd it = next_letter) nn")
  case None
  then have "next_letter \<notin> set (map snd nn)" by (simp add: find_None_values)
  with None assms show ?thesis
    by (simp add: recursive_string_search.simps pop0_def py_index_def)
next
  case (Some it)
  then have "\<not> next_letter \<notin> set (map snd nn)"
    using find_None_values [of next_letter nn] by simp
  with Some assms show ?thesis
    by (simp add: recursive_string_search.simps pop0_def py_index_def search_neighbors_find)
qed

lemma search_frame:
  "game_board (snd (recursive_string_search s i j)) = game_board s"
  "game_board (snd (search_neighbors s items n)) = game_board s"
proof (induction s i j and s items n rule: recursive_string_search_search_neighbors.induct)
  case (1 s i_row j_col)
  show ?case
  proof (cases "word_letters s")
    case Nil
    then show ?thesis by (simp add: recursive_string_search.simps pop0_def)
  next
    case (Cons c cs)
    then have p: "pop0 s = (Inr c, s\<lparr>word_letters := cs\<rparr>)" by (simp add: pop0_def)
    show ?thesis
      using p 1 [OF p [symmetric] refl]
      by (auto simp: recursive_string_search.simps split: sum.splits)
  qed
next
  case (2 s next_letter)
  then show ?case by simp
next
  case (3 s t_pos letter items next_letter)
  then show ?case by simp
qed



lemma nearest_neighbor_data_in_bounds:
  assumes "wf_board b" "in_bounds b (i, j)"
  shows "\<exists>nn. nearest_neighbor_data b i j = Inr nn \<and> (\<forall>it \<in> set nn. in_bounds b (fst it))"
  unfolding nearest_neighbor_data_eq [OF assms] by auto


section \<open>The search leaves the board alone\<close>

lemma start_loop_frame: "game_board (snd (start_loop s ps status)) = game_board s"
proof (induction ps arbitrary: s status)
  case Nil
  show ?case by simp
next
  case (Cons p ps)
  obtain i j where p: "p = (i, j)" by (cases p)
  obtain r s1 where r: "recursive_string_search s i j = (r, s1)"
    by (cases "recursive_string_search s i j")
  have s1: "game_board s1 = game_board s"
    using search_frame(1) [of s i j] r by simp
  show ?case
    using Cons.IH [of s1] s1
    by (simp add: p r split: sum.splits)
qed

lemma check_word_on_board_from_frame:
  "game_board (snd (check_word_on_board_from s)) = game_board s"
  by (simp add: check_word_on_board_from_def Let_def start_loop_frame split: sum.splits)

lemma check_word_on_board_call_board: "snd (check_word_on_board_call b word) = b"
proof -
  obtain r s where c: "check_word_on_board_from \<lparr>game_board = b, word_letters = word\<rparr> = (r, s)"
    by (cases "check_word_on_board_from \<lparr>game_board = b, word_letters = word\<rparr>")
  have "game_board s = b"
    using check_word_on_board_from_frame [of "\<lparr>game_board = b, word_letters = word\<rparr>"] c
    by simp
  then show ?thesis by (simp add: check_word_on_board_call_def c)
qed

lemma repeat_calls_eq:
  "repeat_calls n b word = (replicate n (check_word_on_board b word), b)"
proof (induction n)
  case 0
  show ?case by simp
next
  case (Suc n)
  obtain r b1 where c: "check_word_on_board_call b word = (r, b1)"
    by (cases "check_word_on_board_call b word")
  have b1: "b1 = b" using check_word_on_board_call_board [of b word] c by simp
  have r: "r = check_word_on_board b word" by (simp add: check_word_on_board_def c)
  show ?case using Suc by (simp add: c b1 r [symmetric])
qed

text \<open>
  C7. A call of \<^verbatim>\<open>check_word_on_board\<close> leaves the board object as it found it,
  whatever it returns or raises; so any number of calls in a row with the same word all
  give the result of the first, and the board is still the same after the last.
\<close>

theorem check_word_on_board_leaves_board:
  "snd (check_word_on_board_call b word) = b \<and>
   repeat_calls n b word = (replicate n (check_word_on_board b word), b)"
  by (intro conjI check_word_on_board_call_board repeat_calls_eq)

section \<open>Row-major occurrences\<close>

text \<open>
  C9. For every board and letter, \<^verbatim>\<open>positions_for_letter\<close> returns exactly the
  positions of the cells holding the letter, each once and in row-major order (strictly
  ascending by row, then by column), and the empty list exactly when no row contains
  the letter.
\<close>

theorem positions_for_letter_row_major:
  "set (positions_for_letter b letter) =
     {(int i, int j) | i j. i < length (board b) \<and> j < length (board b ! i) \<and>
        board b ! i ! j = letter} \<and>
   sorted_wrt row_major_before (positions_for_letter b letter) \<and>
   (positions_for_letter b letter = []) = (letter \<notin> set (concat (board b)))"
  by (intro conjI positions_for_letter_set positions_for_letter_sorted
      positions_for_letter_empty)

section \<open>What the search returns or raises\<close>

lemma check_word_absent:
  assumes "positions_for_letter b c = []"
  shows "check_word_on_board b (c # rest) = Inr (PyBool False)"
  using assms
  by (simp add: check_word_on_board_def check_word_on_board_call_def
      check_word_on_board_from_def py_index_def)







subsection \<open>With the recursion limit\<close>














section \<open>The scenarios of the specification\<close>

text \<open>
  C6. On the 4 by 4 board \<open>cats / oxxx / xxxx / xxxx\<close>, which is what the constructor
  builds from the sixteen letters, the search finds \<open>cat\<close> and \<open>cats\<close> and does not
  find \<open>cot\<close>. The only \<open>c\<close> is at (0, 0); from there the search steps to (0, 1) for
  \<open>a\<close>, on to (0, 2) for \<open>t\<close> and to (0, 3) for \<open>s\<close>; for \<open>cot\<close> it steps to the
  only \<open>o\<close>, at (1, 0), which has no \<open>t\<close> among its neighbours.
\<close>

theorem scenario_board_words:
  "BoggleBoard_init ascii_letter draw (Some (PyInt 4)) (Some ''catsoxxxxxxxxxxx'') =
     Inr scenario_board \<and>
   check_word_on_board scenario_board ''cat'' = Inr (PyBool True) \<and>
   check_word_on_board scenario_board ''cats'' = Inr (PyBool True) \<and>
   check_word_on_board scenario_board ''cot'' = Inr (PyBool False) \<and>
   positions_for_letter scenario_board CHR ''c'' = [(0, 0)] \<and>
   first_match scenario_board 0 0 CHR ''a'' = Some (0, 1) \<and>
   first_match scenario_board 0 1 CHR ''t'' = Some (0, 2) \<and>
   first_match scenario_board 0 2 CHR ''s'' = Some (0, 3) \<and>
   positions_for_letter scenario_board CHR ''o'' = [(1, 0)] \<and>
   first_match scenario_board 0 0 CHR ''o'' = Some (1, 0) \<and>
   first_match scenario_board 1 0 CHR ''t'' = None"
proof -
  have b: "BoggleBoard_init ascii_letter draw (Some (PyInt 4)) (Some ''catsoxxxxxxxxxxx'') =
     Inr scenario_board"
    by (simp add: BoggleBoard_init_def isalpha_def ascii_letter_def build_letter_list_def
        build_board_def py_range_def py_slice_def slice_bound_def scenario_board_def
        upt_rec Let_def)
  have w1: "check_word_on_board scenario_board ''cat'' = Inr (PyBool True)" by code_simp
  have w2: "check_word_on_board scenario_board ''cats'' = Inr (PyBool True)" by code_simp
  have w3: "check_word_on_board scenario_board ''cot'' = Inr (PyBool False)" by code_simp
  have p1: "positions_for_letter scenario_board CHR ''c'' = [(0, 0)]" by code_simp
  have m1: "first_match scenario_board 0 0 CHR ''a'' = Some (0, 1)" by code_simp
  have m2: "first_match scenario_board 0 1 CHR ''t'' = Some (0, 2)" by code_simp
  have m3: "first_match scenario_board 0 2 CHR ''s'' = Some (0, 3)" by code_simp
  have p2: "positions_for_letter scenario_board CHR ''o'' = [(1, 0)]" by code_simp
  have m4: "first_match scenario_board 0 0 CHR ''o'' = Some (1, 0)" by code_simp
  have m5: "first_match scenario_board 1 0 CHR ''t'' = None" by code_simp
  show ?thesis using b w1 w2 w3 p1 m1 m2 m3 p2 m4 m5 by blast
qed

section \<open>Several start positions\<close>

text \<open>
  C1 does not hold of the code. All calls of \<^verbatim>\<open>recursive_string_search\<close> made by one
  \<^verbatim>\<open>check_word_on_board\<close> share the list \<^verbatim>\<open>letter_list\<close>, and each call pops from
  it, so a start position after the first is tried with what the failed attempts left
  of the word. On \<open>axx / xxx / xab\<close> the word \<open>ab\<close> can be traced from the second
  \<open>a\<close>, at (2, 1), as a search from there with the whole word shows; the call raises
  \<^verbatim>\<open>IndexError\<close> instead of returning \<^verbatim>\<open>True\<close>. On \<open>axx / xxx / xac\<close>, a board
  without a \<open>b\<close>, the word \<open>abc\<close> is reported as found.
\<close>

theorem check_word_on_board_second_start:
  "positions_for_letter two_a_board CHR ''a'' = [(0, 0), (2, 1)] \<and>
   fst (recursive_string_search \<lparr>game_board = two_a_board, word_letters = ''ab''\<rparr> 0 0) =
     Inr (PyBool False) \<and>
   fst (recursive_string_search \<lparr>game_board = two_a_board, word_letters = ''ab''\<rparr> 2 1) =
     Inr (PyBool True) \<and>
   check_word_on_board two_a_board ''ab'' = Inl IndexError \<and>
   CHR ''b'' \<notin> set (concat (board no_b_board)) \<and>
   check_word_on_board no_b_board ''abc'' = Inr (PyBool True)"
proof -
  have p: "positions_for_letter two_a_board CHR ''a'' = [(0, 0), (2, 1)]" by code_simp
  have r0: "fst (recursive_string_search
      \<lparr>game_board = two_a_board, word_letters = ''ab''\<rparr> 0 0) = Inr (PyBool False)"
    by code_simp
  have r1: "fst (recursive_string_search
      \<lparr>game_board = two_a_board, word_letters = ''ab''\<rparr> 2 1) = Inr (PyBool True)"
    by code_simp
  have c1: "check_word_on_board two_a_board ''ab'' = Inl IndexError" by code_simp
  have n: "CHR ''b'' \<notin> set (concat (board no_b_board))" by (simp add: no_b_board_def)
  have c2: "check_word_on_board no_b_board ''abc'' = Inr (PyBool True)" by code_simp
  show ?thesis using p r0 r1 c1 n c2 by blast
qed

section \<open>The letters around a cell\<close>

text \<open>
  C10. \<^verbatim>\<open>nearest_neighbor_letters\<close> raises \<^verbatim>\<open>AttributeError\<close> for every board and
  every pair of indices: it asks the bound method \<^verbatim>\<open>nearest_neighbor_data\<close> itself for
  \<^verbatim>\<open>values\<close>. Asked of the dict the method returns, \<^verbatim>\<open>values\<close> would give the
  neighbours' letters.
\<close>

theorem nearest_neighbor_letters_raises:
  "nearest_neighbor_letters b i_row j_col = Inl AttributeError \<and>
   values_of (DictObj nn_data) = Inr (map snd nn_data)"
  by (simp add: nearest_neighbor_letters_def values_of_def)

section \<open>First match in compass order\<close>

lemma build_neighbor_map_zip:
  assumes "in_bounds b (i, j)"
  shows "build_neighbor_map b i j =
     zip direction_labels (map (\<lambda>p. if in_bounds b p then Some p else None) (compass i j))"
  using assms
  by (simp add: build_neighbor_map_def direction_labels_def compass_def in_bounds_def Let_def)

lemma find_keyed:
  "map_option fst (find (\<lambda>it. snd it = x) (map (\<lambda>p. (p, f p)) ps)) = find (\<lambda>p. f p = x) ps"
  by (induction ps) auto

lemma first_match_eq:
  assumes "wf_board b" "in_bounds b (i, j)"
  shows "first_match b i j x =
     find (\<lambda>p. cell b p = x) (filter (in_bounds b) (compass i j))"
  unfolding first_match_def nearest_neighbor_data_eq [OF assms]
  by (simp add: find_keyed)

lemma recursive_string_search_first_match:
  assumes "word_letters s = cur # next_letter # rest"
    and "nearest_neighbor_data (game_board s) i j = Inr nn"
  shows "recursive_string_search s i j =
     (case first_match (game_board s) i j next_letter of
        None \<Rightarrow> (Inr (PyBool False), s\<lparr>word_letters := next_letter # rest\<rparr>)
      | Some p \<Rightarrow>
          if rest = [] then (Inr (PyBool True), s\<lparr>word_letters := next_letter # rest\<rparr>)
          else recursive_string_search (s\<lparr>word_letters := next_letter # rest\<rparr>)
                 (fst p) (snd p))"
  unfolding recursive_string_search_step [OF assms] first_match_def assms(2)
  by (cases "find (\<lambda>it. snd it = next_letter) nn") simp_all

lemma wf_dead_end_board: "wf_board dead_end_board"
  by (simp add: wf_board_def dead_end_board_def)


text \<open>
  C3. At a cell of a well-formed board, with a current and a next letter in hand:
  the neighbour map lists the directions left, right, up, down, up-left, up-right,
  down-left, down-right in this order, each with its position when that is on the grid;
  the search commits to the first position in this order, among those on the grid, whose
  letter is the next letter; without one it returns \<^verbatim>\<open>False\<close>, with one it returns
  \<^verbatim>\<open>True\<close> when the next letter is the last, and otherwise whatever the search from
  that one position returns, with no second try. On \<open>xxc / bab / xxx\<close> the \<open>a\<close> has
  a \<open>b\<close> on its left and on its right; the search for \<open>abc\<close> takes the left one, which
  has no \<open>c\<close> around it, and returns \<^verbatim>\<open>False\<close>, though from the right one \<open>bc\<close> is
  found.
\<close>

theorem first_match_in_compass_order:
  assumes "wf_board (game_board s)" and "in_bounds (game_board s) (i, j)"
    and "word_letters s = cur # next_letter # rest"
  shows "build_neighbor_map (game_board s) i j =
       zip direction_labels
         (map (\<lambda>p. if in_bounds (game_board s) p then Some p else None) (compass i j)) \<and>
     first_match (game_board s) i j next_letter =
       find (\<lambda>p. cell (game_board s) p = next_letter)
         (filter (in_bounds (game_board s)) (compass i j)) \<and>
     recursive_string_search s i j =
       (case first_match (game_board s) i j next_letter of
          None \<Rightarrow> (Inr (PyBool False), s\<lparr>word_letters := next_letter # rest\<rparr>)
        | Some p \<Rightarrow>
            if rest = [] then (Inr (PyBool True), s\<lparr>word_letters := next_letter # rest\<rparr>)
            else recursive_string_search (s\<lparr>word_letters := next_letter # rest\<rparr>)
                   (fst p) (snd p)) \<and>
     positions_for_letter dead_end_board CHR ''a'' = [(1, 1)] \<and>
     nearest_neighbor_data dead_end_board 1 1 =
       Inr [((1, 0), CHR ''b''), ((1, 2), CHR ''b''), ((0, 1), CHR ''x''), ((2, 1), CHR ''x''),
            ((0, 0), CHR ''x''), ((0, 2), CHR ''c''), ((2, 0), CHR ''x''), ((2, 2), CHR ''x'')] \<and>
     first_match dead_end_board 1 1 CHR ''b'' = Some (1, 0) \<and>
     first_match dead_end_board 1 0 CHR ''c'' = None \<and>
     fst (recursive_string_search \<lparr>game_board = dead_end_board, word_letters = ''bc''\<rparr> 1 2) =
       Inr (PyBool True) \<and>
     check_word_on_board dead_end_board ''abc'' = Inr (PyBool False)"
proof -
  obtain nn where nn: "nearest_neighbor_data (game_board s) i j = Inr nn"
    using nearest_neighbor_data_in_bounds [OF assms(1,2)] by blast
  have e1: "positions_for_letter dead_end_board CHR ''a'' = [(1, 1)]" by code_simp
  have e2: "nearest_neighbor_data dead_end_board 1 1 =
       Inr [((1, 0), CHR ''b''), ((1, 2), CHR ''b''), ((0, 1), CHR ''x''), ((2, 1), CHR ''x''),
            ((0, 0), CHR ''x''), ((0, 2), CHR ''c''), ((2, 0), CHR ''x''), ((2, 2), CHR ''x'')]"
    by code_simp
  have e3: "first_match dead_end_board 1 1 CHR ''b'' = Some (1, 0)" by code_simp
  have e4: "first_match dead_end_board 1 0 CHR ''c'' = None" by code_simp
  have e5: "fst (recursive_string_search
      \<lparr>game_board = dead_end_board, word_letters = ''bc''\<rparr> 1 2) = Inr (PyBool True)"
    by code_simp
  have e6: "check_word_on_board dead_end_board ''abc'' = Inr (PyBool False)" by code_simp
  show ?thesis
    using build_neighbor_map_zip [OF assms(2)] first_match_eq [OF assms(1,2)]
      recursive_string_search_first_match [OF assms(3) nn] e1 e2 e3 e4 e5 e6
    by blast
qed

theorem first_match_in_compass_order_witness:
  "wf_board dead_end_board \<and> in_bounds dead_end_board (1, 1) \<and>
   first_match dead_end_board 1 1 CHR ''b'' =
     find (\<lambda>p. cell dead_end_board p = CHR ''b'')
       [(1, 0), (1, 2), (0, 1), (2, 1), (0, 0), (0, 2), (2, 0), (2, 2)] \<and>
   recursive_string_search \<lparr>game_board = dead_end_board, word_letters = ''abc''\<rparr> 1 1 =
     recursive_string_search \<lparr>game_board = dead_end_board, word_letters = ''bc''\<rparr> 1 0"
proof -
  let ?s = "\<lparr>game_board = dead_end_board, word_letters = ''abc''\<rparr>"
  have wf: "wf_board (game_board ?s)" using wf_dead_end_board by simp
  have inb: "in_bounds (game_board ?s) (1, 1)" by (simp add: in_bounds_def dead_end_board_def)
  have w: "word_letters ?s = CHR ''a'' # CHR ''b'' # ''c''" by simp
  have f: "filter (in_bounds dead_end_board) (compass 1 1) =
      [(1, 0), (1, 2), (0, 1), (2, 1), (0, 0), (0, 2), (2, 0), (2, 2)]"
    by (simp add: compass_def in_bounds_def dead_end_board_def)
  have m: "first_match dead_end_board 1 1 CHR ''b'' = Some (1, 0)" by code_simp
  note t = first_match_in_compass_order [OF wf inb w]
  have a: "first_match dead_end_board 1 1 CHR ''b'' =
     find (\<lambda>p. cell dead_end_board p = CHR ''b'')
       [(1, 0), (1, 2), (0, 1), (2, 1), (0, 0), (0, 2), (2, 0), (2, 2)]"
    using t f by simp
  have "recursive_string_search ?s 1 1 =
     (case first_match (game_board ?s) 1 1 CHR ''b'' of
          None \<Rightarrow> (Inr (PyBool False), ?s\<lparr>word_letters := CHR ''b'' # ''c''\<rparr>)
        | Some p \<Rightarrow>
            if ''c'' = [] then (Inr (PyBool True), ?s\<lparr>word_letters := CHR ''b'' # ''c''\<rparr>)
            else recursive_string_search (?s\<lparr>word_letters := CHR ''b'' # ''c''\<rparr>)
                   (fst p) (snd p))"
    using t by blast
  then have r: "recursive_string_search ?s 1 1 =
     recursive_string_search \<lparr>game_board = dead_end_board, word_letters = ''bc''\<rparr> 1 0"
    by (simp add: m)
  show ?thesis using wf_dead_end_board inb a r by simp
qed

section \<open>A path through the same cell twice\<close>

lemma spec_trace_three:
  assumes "spec_trace b ps [c, d, e]"
  shows "\<exists>p q r. ps = [p, q, r] \<and> in_bounds b p \<and>
     get_letter_at_position b (fst p) (snd p) = Inr c \<and> in_bounds b r \<and>
     get_letter_at_position b (fst r) (snd r) = Inr e"
proof -
  from assms obtain p ps1 where 1: "ps = p # ps1" by (cases ps) auto
  from assms 1 obtain q ps2 where 2: "ps1 = q # ps2" by (cases ps1) auto
  from assms 1 2 obtain r ps3 where 3: "ps2 = r # ps3" by (cases ps2) auto
  from assms 1 2 3 have 4: "ps3 = []" by (cases ps3) auto
  from assms show ?thesis unfolding 1 2 3 4 by auto
qed

lemma oscillation_board_only_a:
  assumes "in_bounds oscillation_board p"
    and "get_letter_at_position oscillation_board (fst p) (snd p) = Inr CHR ''a''"
  shows "p = (0, 0)"
proof -
  from assms(1) have i: "fst p = 0 \<or> fst p = 1" and j: "snd p = 0 \<or> snd p = 1"
    by (auto simp: in_bounds_def oscillation_board_def)
  have "\<not> (fst p = 0 \<and> snd p = 1)" "\<not> (fst p = 1 \<and> snd p = 0)" "\<not> (fst p = 1 \<and> snd p = 1)"
    using assms(2)
    by (auto simp: get_letter_at_position_def py_index_def oscillation_board_def)
  with i j show ?thesis by (cases p) auto
qed


text \<open>
  C8. On the board \<open>ab / xx\<close> the search finds \<open>aba\<close>. The board has one \<open>a\<close>, so
  the walk (0, 0), (0, 1), (0, 0) is a trace of the word, and no trace of it consists of
  pairwise different cells.
\<close>

theorem search_revisits_cell:
  "check_word_on_board oscillation_board ''aba'' = Inr (PyBool True) \<and>
   positions_for_letter oscillation_board CHR ''a'' = [(0, 0)] \<and>
   spec_trace oscillation_board [(0, 0), (0, 1), (0, 0)] ''aba'' \<and>
   \<not> (\<exists>ps. spec_trace oscillation_board ps ''aba'' \<and> distinct ps)"
proof -
  have c: "check_word_on_board oscillation_board ''aba'' = Inr (PyBool True)" by code_simp
  have p: "positions_for_letter oscillation_board CHR ''a'' = [(0, 0)]" by code_simp
  have t: "spec_trace oscillation_board [(0, 0), (0, 1), (0, 0)] ''aba''" by code_simp
  have n: "\<not> (\<exists>ps. spec_trace oscillation_board ps ''aba'' \<and> distinct ps)"
  proof
    assume "\<exists>ps. spec_trace oscillation_board ps ''aba'' \<and> distinct ps"
    then obtain ps where tr: "spec_trace oscillation_board ps ''aba''" and d: "distinct ps"
      by blast
    from spec_trace_three [OF tr] obtain p q r where ps: "ps = [p, q, r]"
      and p: "in_bounds oscillation_board p"
        "get_letter_at_position oscillation_board (fst p) (snd p) = Inr CHR ''a''"
      and r: "in_bounds oscillation_board r"
        "get_letter_at_position oscillation_board (fst r) (snd r) = Inr CHR ''a''"
      by blast
    have "p = r" using oscillation_board_only_a [OF p] oscillation_board_only_a [OF r] by simp
    with d ps show False by simp
  qed
  show ?thesis using c p t n by blast
qed

section \<open>Construction from letters\<close>

lemma range_count: "0 < (n::int) \<Longrightarrow> (n * n + n - 1) div n = n"
proof -
  assume n: "0 < n"
  have "(n * n + n - 1) div n = ((n - 1) + n * n) div n" by (simp add: algebra_simps)
  also have "\<dots> = n + (n - 1) div n" using n by simp
  also have "(n - 1) div n = 0" using n by (simp add: div_pos_pos_trivial)
  finally show ?thesis by simp
qed

lemma py_range_rows:
  assumes "0 < m"
  shows "py_range 0 (int (m * m)) (int m) = Inr (map (\<lambda>k. int (k * m)) [0..<m])"
proof -
  have "(int m * int m + int m - 1) div int m = int m"
    using assms by (intro range_count) simp
  then show ?thesis using assms by (simp add: py_range_def)
qed

lemma slice_bound_nat: "j \<le> n \<Longrightarrow> slice_bound n (int j) = j"
  by (simp add: slice_bound_def)

lemma py_slice_row:
  assumes "length xs = m * m" "k < m"
  shows "py_slice xs (int (k * m)) (int (k * m) + int m) = take m (drop (k * m) xs)"
proof -
  have "k * m + m \<le> m * m"
  proof -
    have "Suc k * m \<le> m * m" using assms(2) by (intro mult_le_mono1) simp
    then show ?thesis by (simp add: add.commute)
  qed
  then have le: "k * m + m \<le> length xs" "k * m \<le> length xs"
    unfolding assms(1) by linarith+
  have lo: "slice_bound (length xs) (int (k * m)) = k * m"
    by (rule slice_bound_nat [OF le(2)])
  have "int (k * m) + int m = int (k * m + m)" by simp
  then have hi: "slice_bound (length xs) (int (k * m) + int m) = k * m + m"
    using slice_bound_nat [OF le(1)] by (simp only:)
  show ?thesis unfolding py_slice_def Let_def lo hi by simp
qed

lemma build_board_rows:
  assumes "0 < m" "length xs = m * m"
  shows "build_board (int m) xs = Inr (map (\<lambda>k. take m (drop (k * m) xs)) [0..<m])"
proof -
  have "map (\<lambda>i. py_slice xs i (i + int m)) (map (\<lambda>k. int (k * m)) [0..<m]) =
      map (\<lambda>k. take m (drop (k * m) xs)) [0..<m]"
    using py_slice_row [OF assms(2)] by (simp add: comp_def)
  then show ?thesis
    using py_range_rows [OF assms(1)] by (simp add: build_board_def assms(2))
qed

lemma concat_rows:
  "concat (map (\<lambda>k. take m (drop (k * m) xs)) [0..<j]) = take (j * m) xs"
proof (induction j)
  case 0
  show ?case by simp
next
  case (Suc j)
  have "take (j * m) xs @ take m (drop (j * m) xs) = take (j * m + m) xs"
    by (simp only: take_add)
  moreover have "Suc j * m = j * m + m" by simp
  ultimately show ?case using Suc by (simp del: mult_Suc)
qed

lemma rows_length:
  assumes "length xs = m * m" "k < m"
  shows "length (take m (drop (k * m) xs)) = m"
proof -
  have "Suc k * m \<le> m * m" using assms(2) by (intro mult_le_mono1) simp
  then show ?thesis using assms(1) by simp
qed

lemma build_board_wf:
  assumes "0 < m" "length xs = m * m"
  shows "\<exists>bd. build_board (int m) xs = Inr bd \<and> length bd = m \<and>
     list_all (\<lambda>row. int (length row) = int m) bd \<and> concat bd = xs"
proof -
  let ?bd = "map (\<lambda>k. take m (drop (k * m) xs)) [0..<m]"
  have 1: "build_board (int m) xs = Inr ?bd" by (rule build_board_rows [OF assms])
  have 2: "length ?bd = m" by simp
  have 3: "list_all (\<lambda>row. int (length row) = int m) ?bd"
    using rows_length [OF assms(2)] by (simp add: list_all_iff)
  have 4: "concat ?bd = xs" using assms(2) by (simp add: concat_rows)
  show ?thesis using 1 2 3 4 by blast
qed

lemma square_nat:
  assumes "1 \<le> (n::int)"
  shows "n ^ 2 = int (nat n * nat n)" "n = int (nat n)" "0 < nat n"
  using assms by (simp_all add: power2_eq_square)

lemma BoggleBoard_init_bad_size:
  assumes "requested_size size_arg = None"
  shows "BoggleBoard_init alpha draw size_arg letters_arg = Inl InitError"
proof -
  from assms obtain v where "size_arg = Some v" "\<not> isinstance_int v"
    by (cases size_arg) (auto split: if_splits)
  then show ?thesis by (simp add: BoggleBoard_init_def)
qed

lemma requested_size_Some:
  assumes "requested_size size_arg = Some n"
  shows "(case size_arg of None \<Rightarrow> Inr 5
          | Some v \<Rightarrow> if \<not> isinstance_int v then Inl InitError else Inr (int_of v)) =
         (Inr n :: error + int)"
  using assms by (cases size_arg) (auto split: if_splits)

lemma BoggleBoard_init_rejects:
  assumes "requested_size size_arg = Some n"
  shows "(BoggleBoard_init alpha draw size_arg (Some l) = Inl InitError) =
     (l = [] \<or> \<not> list_all alpha l \<or> int (length l) \<noteq> n ^ 2)"
proof (cases "l = [] \<or> \<not> list_all alpha l \<or> int (length l) \<noteq> n ^ 2")
  case True
  then show ?thesis
    unfolding BoggleBoard_init_def requested_size_Some [OF assms]
    by (auto simp: isalpha_def)
next
  case False
  then have v: "l \<noteq> []" "list_all alpha l" "int (length l) = n ^ 2" by auto
  have "BoggleBoard_init alpha draw size_arg (Some l) \<noteq> Inl InitError"
    unfolding BoggleBoard_init_def requested_size_Some [OF assms]
    using v
    by (auto simp: isalpha_def build_letter_list_def build_board_def py_range_def Let_def
        split: sum.splits if_splits)
  with False show ?thesis by simp
qed

lemma BoggleBoard_init_accepts:
  assumes "requested_size size_arg = Some n" and "1 \<le> n"
    and "l \<noteq> []" and "list_all alpha l" and "int (length l) = n ^ 2"
  shows "\<exists>b. BoggleBoard_init alpha draw size_arg (Some l) = Inr b \<and> size_b b = n \<and>
     letter_list b = l \<and> letters b = l \<and> wf_board b \<and> concat (board b) = l"
proof -
  let ?m = "nat n"
  have len: "length l = ?m * ?m"
    using assms(5) square_nat(1) [OF assms(2)] by (metis of_nat_eq_iff)
  obtain bd where bd: "build_board (int ?m) l = Inr bd" "length bd = ?m"
    "list_all (\<lambda>row. int (length row) = int ?m) bd" "concat bd = l"
    using build_board_wf [OF square_nat(3) [OF assms(2)] len] by blast
  have n: "int ?m = n" using assms(2) by simp
  let ?b = "\<lparr>size_b = n, letter_list = l, board = bd, letters = l\<rparr>"
  have "BoggleBoard_init alpha draw size_arg (Some l) = Inr ?b"
    unfolding BoggleBoard_init_def requested_size_Some [OF assms(1)]
    using assms(3,4,5) bd(1) n
    by (simp add: isalpha_def build_letter_list_def Let_def)
  moreover have "wf_board ?b" using bd(2,3) n assms(2) by (simp add: wf_board_def)
  ultimately show ?thesis using bd(4) by simp
qed

lemma BoggleBoard_init_random_wf:
  assumes "requested_size size_arg = Some n" and "1 \<le> n"
  shows "\<exists>b. BoggleBoard_init alpha draw size_arg None = Inr b \<and> size_b b = n \<and> wf_board b"
proof -
  let ?m = "nat n"
  let ?l = "map draw [0..<nat (n ^ 2)]"
  have "nat (n ^ 2) = ?m * ?m"
    by (simp only: square_nat(1) [OF assms(2)] nat_int)
  then have len: "length ?l = ?m * ?m" by simp
  obtain bd where bd: "build_board (int ?m) ?l = Inr bd" "length bd = ?m"
    "list_all (\<lambda>row. int (length row) = int ?m) bd"
    using build_board_wf [OF square_nat(3) [OF assms(2)] len] by blast
  have n: "int ?m = n" using assms(2) by simp
  let ?b = "\<lparr>size_b = n, letter_list = ?l, board = bd, letters = ?l\<rparr>"
  have "BoggleBoard_init alpha draw size_arg None = Inr ?b"
    unfolding BoggleBoard_init_def requested_size_Some [OF assms(1)]
    using bd(1) n by (simp add: build_letter_list_def Let_def)
  moreover have "wf_board ?b" using bd(2,3) n assms(2) by (simp add: wf_board_def)
  ultimately show ?thesis by simp
qed

lemma BoggleBoard_init_negative_size:
  assumes "requested_size size_arg = Some n" and "n < 0"
    and "l \<noteq> []" and "list_all alpha l" and "int (length l) = n ^ 2"
  shows "BoggleBoard_init alpha draw size_arg (Some l) =
     Inr \<lparr>size_b = n, letter_list = l, board = [], letters = l\<rparr>"
proof -
  have "(- (n ^ 2) - n - 1) div (- n) \<le> 0"
  proof -
    have "- (n ^ 2) - n - 1 < 0"
    proof -
      have "n * (n + 1) \<ge> 0" using assms(2) by (intro mult_nonpos_nonpos) simp_all
      then show ?thesis by (simp add: power2_eq_square algebra_simps)
    qed
    moreover have "0 < - n" using assms(2) by simp
    ultimately show ?thesis by (simp add: div_nonpos_pos_le0 del: minus_add_distrib)
  qed
  then have "py_range 0 (n ^ 2) n = Inr []" using assms(2) by (simp add: py_range_def)
  then show ?thesis
    unfolding BoggleBoard_init_def requested_size_Some [OF assms(1)]
    using assms(3,4,5) by (simp add: isalpha_def build_letter_list_def build_board_def Let_def)
qed


text \<open>
  C5. A \<^verbatim>\<open>size\<close> that is not an \<^verbatim>\<open>int\<close> raises \<^verbatim>\<open>InitError\<close>. With an
  \<^verbatim>\<open>int\<close> size other than 0 (or the default 5) and a letter string, \<^verbatim>\<open>InitError\<close>
  is raised exactly when the string has a character that is not alphabetic or has a
  length other than the square of the size. A string of alphabetic characters whose
  length is the square of a size of at least 1 gives a board of that size with \<open>size\<close>
  rows of \<open>size\<close> letters, which read row after row are the string. An error is a
  result without a board.
\<close>

theorem BoggleBoard_init_validation:
  "(requested_size size_arg = None \<longrightarrow>
      BoggleBoard_init alpha draw size_arg letters_arg = Inl InitError) \<and>
   (requested_size size_arg = Some n \<and> n \<noteq> 0 \<longrightarrow>
      (BoggleBoard_init alpha draw size_arg (Some l) = Inl InitError) =
        (\<not> list_all alpha l \<or> int (length l) \<noteq> n ^ 2)) \<and>
   (requested_size size_arg = Some n \<and> 1 \<le> n \<and> list_all alpha l \<and>
    int (length l) = n ^ 2 \<longrightarrow>
      (\<exists>b. BoggleBoard_init alpha draw size_arg (Some l) = Inr b \<and> size_b b = n \<and>
         letter_list b = l \<and> letters b = l \<and> wf_board b \<and> concat (board b) = l))"
proof (intro conjI impI)
  assume "requested_size size_arg = None"
  then show "BoggleBoard_init alpha draw size_arg letters_arg = Inl InitError"
    by (rule BoggleBoard_init_bad_size)
next
  assume a: "requested_size size_arg = Some n \<and> n \<noteq> 0"
  then have r: "requested_size size_arg = Some n" and n: "n \<noteq> 0" by simp_all
  have "l = [] \<Longrightarrow> int (length l) \<noteq> n ^ 2" using n by simp
  then show "(BoggleBoard_init alpha draw size_arg (Some l) = Inl InitError) =
      (\<not> list_all alpha l \<or> int (length l) \<noteq> n ^ 2)"
    unfolding BoggleBoard_init_rejects [OF r] by blast
next
  assume a: "requested_size size_arg = Some n \<and> 1 \<le> n \<and> list_all alpha l \<and>
    int (length l) = n ^ 2"
  then have r: "requested_size size_arg = Some n" and n: "1 \<le> n"
    and al: "list_all alpha l" and len: "int (length l) = n ^ 2" by simp_all
  have "0 < n ^ 2" using n by simp
  with len have ne: "l \<noteq> []" by auto
  show "\<exists>b. BoggleBoard_init alpha draw size_arg (Some l) = Inr b \<and> size_b b = n \<and>
      letter_list b = l \<and> letters b = l \<and> wf_board b \<and> concat (board b) = l"
    by (rule BoggleBoard_init_accepts [OF r n ne al len])
qed

theorem BoggleBoard_init_validation_witness:
  "requested_size (Some (PyStr ''3'')) = None \<and>
   BoggleBoard_init ascii_letter (\<lambda>k. CHR ''e'') (Some (PyStr ''3'')) (Some ''abcdefghi'') =
     Inl InitError \<and>
   requested_size (Some (PyInt 3)) = Some 3 \<and>
   int (length ''abcdefghij'') \<noteq> 3 ^ 2 \<and>
   BoggleBoard_init ascii_letter (\<lambda>k. CHR ''e'') (Some (PyInt 3)) (Some ''abcdefghij'') =
     Inl InitError \<and>
   list_all ascii_letter ''abcdefghi'' \<and> int (length ''abcdefghi'') = 3 ^ 2 \<and>
   (\<exists>b. BoggleBoard_init ascii_letter (\<lambda>k. CHR ''e'') (Some (PyInt 3)) (Some ''abcdefghi'') =
      Inr b \<and> size_b b = 3 \<and> wf_board b \<and> concat (board b) = ''abcdefghi'')"
proof -
  have s0: "requested_size (Some (PyStr ''3'')) = None" by simp
  have s3: "requested_size (Some (PyInt 3)) = Some 3" by simp
  have l10: "int (length ''abcdefghij'') \<noteq> 3 ^ 2" by simp
  have a9: "list_all ascii_letter ''abcdefghi''" by (simp add: ascii_letter_def)
  have l9: "int (length ''abcdefghi'') = 3 ^ 2" by simp
  have one: "(1::int) \<le> 3" "(3::int) \<noteq> 0" by simp_all
  have r1: "BoggleBoard_init ascii_letter (\<lambda>k. CHR ''e'') (Some (PyStr ''3''))
      (Some ''abcdefghi'') = Inl InitError"
    using BoggleBoard_init_validation [of "Some (PyStr ''3'')" ascii_letter "\<lambda>k. CHR ''e''"
        "Some ''abcdefghi''"] s0 by blast
  have r2: "BoggleBoard_init ascii_letter (\<lambda>k. CHR ''e'') (Some (PyInt 3))
      (Some ''abcdefghij'') = Inl InitError"
    using BoggleBoard_init_validation [of "Some (PyInt 3)" ascii_letter "\<lambda>k. CHR ''e''"
        "Some ''abcdefghij''" 3 "''abcdefghij''"] s3 l10 one by blast
  have r3: "\<exists>b. BoggleBoard_init ascii_letter (\<lambda>k. CHR ''e'') (Some (PyInt 3))
      (Some ''abcdefghi'') = Inr b \<and> size_b b = 3 \<and> wf_board b \<and>
      concat (board b) = ''abcdefghi''"
    using BoggleBoard_init_validation [of "Some (PyInt 3)" ascii_letter "\<lambda>k. CHR ''e''"
        "Some ''abcdefghi''" 3 "''abcdefghi''"] s3 a9 l9 one by blast
  show ?thesis using s0 s3 l10 a9 l9 r1 r2 r3 by blast
qed

text \<open>
  Size 0 admits no letters at all: the only string of length 0 is the empty one, of
  which \<^verbatim>\<open>isalpha\<close> is false.
\<close>

lemma BoggleBoard_init_size_zero:
  "BoggleBoard_init ascii_letter (\<lambda>k. CHR ''e'') (Some (PyInt 0)) (Some []) = Inl InitError"
  by (simp add: BoggleBoard_init_def isalpha_def)

end
